theory Spec2Isabelle
  imports Main
begin

section \<open>Coordinates\<close>

text \<open>
  \<^verbatim>\<open>util/map.py\<close> keys its cell table by \<^verbatim>\<open>Coordinate\<close> values: it builds them
  with \<^verbatim>\<open>Coordinate(x, y)\<close>, reads them with \<^verbatim>\<open>get_x()\<close> and \<^verbatim>\<open>get_y()\<close> and
  uses them as dictionary keys, so two coordinates with the same components are
  the same key. A coordinate is a pair of Python integers.
\<close>

datatype coordinate = Coordinate (get_x: int) (get_y: int)

text \<open>
  Modelled from the spec: \<^verbatim>\<open>Coordinate.__add__\<close> of \<^verbatim>\<open>util/coordinate.py\<close>, which
  is not among the sources. The spec: "\<^verbatim>\<open>+\<close> combines elementwise with a scalar".
\<close>

definition coordinate_add :: "coordinate \<Rightarrow> int \<Rightarrow> coordinate" where
  "coordinate_add c n = Coordinate (get_x c + n) (get_y c + n)"

text \<open>
  Modelled from the spec: \<^verbatim>\<open>Coordinate.__sub__\<close> of \<^verbatim>\<open>util/coordinate.py\<close>, which
  is not among the sources; \<^verbatim>\<open>coordinate + object.get_size() - 1\<close> subtracts the
  scalar 1 from a coordinate. Elementwise with a scalar, as the spec has it for
  \<^verbatim>\<open>+\<close>.
\<close>

definition coordinate_sub :: "coordinate \<Rightarrow> int \<Rightarrow> coordinate" where
  "coordinate_sub c n = Coordinate (get_x c - n) (get_y c - n)"

text \<open>
  Modelled from the spec: \<^verbatim>\<open>Coordinate.is_adjacent\<close> of \<^verbatim>\<open>util/coordinate.py\<close>,
  which is not among the sources. The spec: "\<^verbatim>\<open>is_adjacent\<close> is true iff Chebyshev
  distance equals 1 (one of 8 surrounding cells, diagonals included)".
\<close>

definition chebyshev :: "coordinate \<Rightarrow> coordinate \<Rightarrow> int" where
  "chebyshev a b = max \<bar>get_x a - get_x b\<bar> \<bar>get_y a - get_y b\<bar>"

definition is_adjacent :: "coordinate \<Rightarrow> coordinate \<Rightarrow> bool" where
  "is_adjacent a b = (chebyshev a b = 1)"

text \<open>
  The comparison \<^verbatim>\<open>Coordinate.__le__\<close> is not among the sources either. Every
  function below that evaluates \<^verbatim>\<open><=\<close> on coordinates takes the comparison as
  its first argument \<open>le\<close>, and a statement is made for every \<open>le\<close> wherever it
  holds for every \<open>le\<close>.
\<close>

type_synonym comparison = "coordinate \<Rightarrow> coordinate \<Rightarrow> bool"

text \<open>
  Modelled from the spec: \<^verbatim>\<open>Coordinate.__le__\<close> of \<^verbatim>\<open>util/coordinate.py\<close>, which
  is not among the sources. The spec: "a total order (row-major-style
  comparison)", "total order defined lexicographically or by the source's chosen
  comparison". This is the lexicographic order, first by \<open>x\<close>, then by \<open>y\<close>.
\<close>

definition coordinate_le_lex :: comparison where
  "coordinate_le_lex a b = (get_x a < get_x b \<or> (get_x a = get_x b \<and> get_y a \<le> get_y b))"

text \<open>
  The componentwise comparison. It is not the order the spec describes, and it is
  not total; it is the other instance of \<open>le\<close> considered here, the one under
  which \<^verbatim>\<open>Coordinate(0, 0) <= c <= Coordinate(n, n)\<close> says that \<open>c\<close> lies in the
  square \<open>[0, n] \<times> [0, n]\<close>. What is stated with it below is stated with
  \<open>coordinate_le_lex\<close> as well, in the section on the comparison of coordinates.
\<close>

definition coordinate_le :: comparison where
  "coordinate_le a b = (get_x a \<le> get_x b \<and> get_y a \<le> get_y b)"

section \<open>Game objects and errors\<close>

text \<open>
  \<^verbatim>\<open>GameObject\<close> (\<^verbatim>\<open>model/game_object.py\<close>) is used through \<^verbatim>\<open>get_size()\<close>, the
  side of the square block the object occupies, and \<^verbatim>\<open>get_coordinate()\<close>, the
  object's own record of its anchor. No method of \<^verbatim>\<open>Map\<close> writes an object, so
  a reference to an object is represented by the object's value; \<open>ident\<close> tells
  instances apart.
\<close>

record game_object =
  ident :: nat
  object_size :: int
  object_coordinate :: coordinate

text \<open>
  Every error of \<^verbatim>\<open>Map\<close> is a \<^verbatim>\<open>ValueError\<close>; the constructors name the spec's
  error kinds, one per message:
  \<^item> \<open>PlacementError\<close>: "Cannot place object at the given coordinate." (\<^verbatim>\<open>add\<close>)
    and "New coordinate is not available." (\<^verbatim>\<open>move\<close>);
  \<^item> \<open>OutOfBoundsError\<close>: "Coordinate is out of bounds." (\<^verbatim>\<open>remove\<close>);
  \<^item> \<open>EmptyCellError\<close>: "No entity at the given coordinate." (\<^verbatim>\<open>remove\<close>);
  \<^item> \<open>NotAdjacentError\<close>: "New coordinate is not adjacent to the entity's
    current coordinate." (\<^verbatim>\<open>move\<close>).
  \<open>AttributeError\<close> is what calling \<^verbatim>\<open>get_x()\<close> on \<^verbatim>\<open>None\<close> raises.
\<close>

datatype error =
  PlacementError | OutOfBoundsError | EmptyCellError | NotAdjacentError | AttributeError

section \<open>The map\<close>

text \<open>
  \<^verbatim>\<open>Map.__init__\<close> stores the size and an empty \<^verbatim>\<open>defaultdict(lambda: None)\<close>.
  Reading a missing key of that dictionary gives \<^verbatim>\<open>None\<close>, and storing \<^verbatim>\<open>None\<close>
  under a key reads back as \<^verbatim>\<open>None\<close>, so the cell table is a total function to
  \<open>game_object option\<close>.
\<close>

type_synonym cells = "coordinate \<Rightarrow> game_object option"

record game_map =
  map_size :: int
  matrix :: cells

definition Map_init :: "int \<Rightarrow> game_map" where
  "Map_init n = \<lparr>map_size = n, matrix = (\<lambda>_. None)\<rparr>"

definition get_size :: "game_map \<Rightarrow> int" where
  "get_size m = map_size m"

definition get :: "game_map \<Rightarrow> coordinate \<Rightarrow> game_object option" where
  "get m c = matrix m c"

text \<open>
  \<^verbatim>\<open>for x in range(k): for y in range(k)\<close> visits the offsets in this order; the
  list is empty when \<open>k \<le> 0\<close>.
\<close>

definition block_offsets :: "int \<Rightarrow> (int \<times> int) list" where
  "block_offsets k = List.product [0..k - 1] [0..k - 1]"

definition cell_at :: "coordinate \<Rightarrow> int \<times> int \<Rightarrow> coordinate" where
  "cell_at c d = Coordinate (get_x c + fst d) (get_y c + snd d)"

text \<open>
  \<^verbatim>\<open>check_placement\<close>: the body of the two loops, run on the remaining offsets.
  The bounds test stands inside the loops, so it is not evaluated when the
  object's size is not positive.
\<close>

fun check_placement_loop ::
  "comparison \<Rightarrow> game_map \<Rightarrow> game_object \<Rightarrow> coordinate option \<Rightarrow> (int \<times> int) list \<Rightarrow> bool" where
  "check_placement_loop le m obj coordinate [] = True"
| "check_placement_loop le m obj coordinate (d # rest) =
     (case coordinate of
        None \<Rightarrow> False
      | Some c \<Rightarrow>
          if \<not> (le (Coordinate 0 0) c \<and>
                 le (coordinate_sub (coordinate_add c (object_size obj)) 1)
                    (Coordinate (get_size m - 1) (get_size m - 1)))
          then False
          else if get m (cell_at c d) \<noteq> None then False
          else check_placement_loop le m obj coordinate rest)"

definition check_placement ::
  "comparison \<Rightarrow> game_map \<Rightarrow> game_object \<Rightarrow> coordinate option \<Rightarrow> bool" where
  "check_placement le m obj coordinate =
     check_placement_loop le m obj coordinate (block_offsets (object_size obj))"

text \<open>
  A method that can raise returns the raised error or its value, together with
  the map as the call leaves it.
\<close>

type_synonym 'a outcome = "(error + 'a) \<times> game_map"

fun add_loop :: "game_map \<Rightarrow> game_object \<Rightarrow> coordinate option \<Rightarrow> (int \<times> int) list \<Rightarrow> unit outcome" where
  "add_loop m obj coordinate [] = (Inr (), m)"
| "add_loop m obj coordinate (d # rest) =
     (case coordinate of
        None \<Rightarrow> (Inl AttributeError, m)
      | Some c \<Rightarrow> add_loop (m\<lparr>matrix := (matrix m)(cell_at c d := Some obj)\<rparr>) obj coordinate rest)"

definition add :: "comparison \<Rightarrow> game_map \<Rightarrow> game_object \<Rightarrow> coordinate option \<Rightarrow> unit outcome" where
  "add le m obj coordinate =
     (if \<not> check_placement le m obj coordinate then (Inl PlacementError, m)
      else add_loop m obj coordinate (block_offsets (object_size obj)))"

definition force_add :: "game_map \<Rightarrow> game_object \<Rightarrow> coordinate \<Rightarrow> game_map" where
  "force_add m obj coordinate = m\<lparr>matrix := (matrix m)(coordinate := Some obj)\<rparr>"

fun remove_loop :: "game_map \<Rightarrow> coordinate \<Rightarrow> (int \<times> int) list \<Rightarrow> game_map" where
  "remove_loop m c [] = m"
| "remove_loop m c (d # rest) = remove_loop (m\<lparr>matrix := (matrix m)(cell_at c d := None)\<rparr>) c rest"

definition remove :: "comparison \<Rightarrow> game_map \<Rightarrow> coordinate \<Rightarrow> game_object outcome" where
  "remove le m coordinate =
     (if \<not> (le (Coordinate 0 0) coordinate \<and> le coordinate (Coordinate (get_size m) (get_size m)))
      then (Inl OutOfBoundsError, m)
      else case matrix m coordinate of
        None \<Rightarrow> (Inl EmptyCellError, m)
      | Some obj \<Rightarrow> (Inr obj, remove_loop m coordinate (block_offsets (object_size obj))))"

definition move :: "comparison \<Rightarrow> game_map \<Rightarrow> game_object \<Rightarrow> coordinate \<Rightarrow> unit outcome" where
  "move le m obj new_coordinate =
     (if \<not> is_adjacent (object_coordinate obj) new_coordinate then (Inl NotAdjacentError, m)
      else if \<not> check_placement le m obj (Some new_coordinate) then (Inl PlacementError, m)
      else case remove le m (object_coordinate obj) of
        (Inl e, m1) \<Rightarrow> (Inl e, m1)
      | (Inr removed, m1) \<Rightarrow> add le m1 obj (Some new_coordinate))"

section \<open>Footprint blocks\<close>

definition footprint_block :: "coordinate \<Rightarrow> int \<Rightarrow> coordinate set" where
  "footprint_block c k =
     {p. get_x c \<le> get_x p \<and> get_x p < get_x c + k \<and> get_y c \<le> get_y p \<and> get_y p < get_y c + k}"

definition in_bounds :: "game_map \<Rightarrow> coordinate \<Rightarrow> bool" where
  "in_bounds m p =
     (0 \<le> get_x p \<and> get_x p \<le> get_size m - 1 \<and> 0 \<le> get_y p \<and> get_y p \<le> get_size m - 1)"

section \<open>The scenarios of the specification\<close>

text \<open>A unit of footprint 1 whose recorded anchor is \<open>(2, 2)\<close>, for a grid of size 5.\<close>

definition unit_U :: game_object where
  "unit_U = \<lparr>ident = 1, object_size = 1, object_coordinate = Coordinate 2 2\<rparr>"

text \<open>A building of footprint 2 whose recorded anchor is \<open>(0, 0)\<close>, for a grid of size 4.\<close>

definition building_B :: game_object where
  "building_B = \<lparr>ident = 2, object_size = 2, object_coordinate = Coordinate 0 0\<rparr>"

text \<open>The grid of size 5 after \<^verbatim>\<open>add(U, Coordinate(2, 2))\<close>.\<close>

definition unit_grid :: game_map where
  "unit_grid = snd (add coordinate_le (Map_init 5) unit_U (Some (Coordinate 2 2)))"

text \<open>The grid of size 4 after \<^verbatim>\<open>add(B, Coordinate(0, 0))\<close>.\<close>

definition building_grid :: game_map where
  "building_grid = snd (add coordinate_le (Map_init 4) building_B (Some (Coordinate 0 0)))"

section \<open>Region extraction\<close>

text \<open>
  \<^verbatim>\<open>get_from_to\<close>: \<^verbatim>\<open>range(a, b + 1)\<close> is the list \<open>[a..b]\<close>; the loop body reads
  \<^verbatim>\<open>self\<close> and writes the new map with \<^verbatim>\<open>__force_add\<close>.
\<close>

fun get_from_to_loop :: "game_map \<Rightarrow> coordinate \<Rightarrow> game_map \<Rightarrow> (int \<times> int) list \<Rightarrow> game_map" where
  "get_from_to_loop self from_coord new_map [] = new_map"
| "get_from_to_loop self from_coord new_map ((x, y) # rest) =
     (case get self (Coordinate x y) of
        None \<Rightarrow> get_from_to_loop self from_coord new_map rest
      | Some obj \<Rightarrow>
          get_from_to_loop self from_coord
            (force_add new_map obj (Coordinate (x - get_x from_coord) (y - get_y from_coord)))
            rest)"

definition get_from_to :: "game_map \<Rightarrow> coordinate \<Rightarrow> coordinate \<Rightarrow> game_map" where
  "get_from_to self from_coord to_coord =
     (let new_size = max (get_x to_coord - get_x from_coord) (get_y to_coord - get_y from_coord);
          new_map = Map_init new_size
      in get_from_to_loop self from_coord new_map
           (List.product [get_x from_coord..get_x to_coord] [get_y from_coord..get_y to_coord]))"

section \<open>Path finding\<close>

text \<open>
  The body of \<^verbatim>\<open>path_finding\<close> is its docstring alone, so every call returns
  \<^verbatim>\<open>None\<close>.
\<close>

definition path_finding :: "game_map \<Rightarrow> coordinate \<Rightarrow> coordinate \<Rightarrow> coordinate list option" where
  "path_finding self start finish = None"

section \<open>Sequences of operations\<close>

text \<open>
  The grids that a sequence of calls of \<^verbatim>\<open>add\<close>, \<^verbatim>\<open>remove\<close> and \<^verbatim>\<open>move\<close>, each
  returning normally, produces from the empty grid of size \<open>n\<close>.
\<close>

inductive reachable :: "comparison \<Rightarrow> int \<Rightarrow> game_map \<Rightarrow> bool" for le n where
  reachable_init: "reachable le n (Map_init n)"
| reachable_add:
    "reachable le n m \<Longrightarrow> add le m obj coordinate = (Inr (), m') \<Longrightarrow> reachable le n m'"
| reachable_remove:
    "reachable le n m \<Longrightarrow> remove le m c = (Inr obj, m') \<Longrightarrow> reachable le n m'"
| reachable_move:
    "reachable le n m \<Longrightarrow> move le m obj c = (Inr (), m') \<Longrightarrow> reachable le n m'"

text \<open>
  No partial footprint: every cell that holds an object lies in a block of the
  object's footprint, anchored somewhere, all of whose cells hold that object.
\<close>

definition whole_footprints :: "game_map \<Rightarrow> bool" where
  "whole_footprints m =
     (\<forall>p obj. get m p = Some obj \<longrightarrow>
        (\<exists>a. p \<in> footprint_block a (object_size obj) \<and>
             (\<forall>q \<in> footprint_block a (object_size obj). get m q = Some obj)))"

text \<open>The building grid after \<^verbatim>\<open>remove(Coordinate(1, 1))\<close>.\<close>

definition partial_grid :: game_map where
  "partial_grid = snd (remove coordinate_le building_grid (Coordinate 1 1))"

text \<open>
  The same sequences, with the set of anchors at which a block has been placed
  and not removed since, and with \<^verbatim>\<open>remove\<close> called at such an anchor only:
  directly, or by \<^verbatim>\<open>move\<close> at the object's recorded coordinate.
\<close>

definition anchors_after_add ::
  "game_object \<Rightarrow> coordinate option \<Rightarrow> coordinate set \<Rightarrow> coordinate set" where
  "anchors_after_add obj coordinate A =
     (case coordinate of
        None \<Rightarrow> A
      | Some c \<Rightarrow> if 0 < object_size obj then insert c A else A)"

inductive anchored :: "comparison \<Rightarrow> int \<Rightarrow> game_map \<Rightarrow> coordinate set \<Rightarrow> bool" for le n where
  anchored_init: "anchored le n (Map_init n) {}"
| anchored_add:
    "anchored le n m A \<Longrightarrow> add le m obj coordinate = (Inr (), m') \<Longrightarrow>
     anchored le n m' (anchors_after_add obj coordinate A)"
| anchored_remove:
    "anchored le n m A \<Longrightarrow> c \<in> A \<Longrightarrow> remove le m c = (Inr obj, m') \<Longrightarrow>
     anchored le n m' (A - {c})"
| anchored_move:
    "anchored le n m A \<Longrightarrow> object_coordinate obj \<in> A \<Longrightarrow>
     move le m obj c = (Inr (), m') \<Longrightarrow>
     anchored le n m' (anchors_after_add obj (Some c) (A - {object_coordinate obj}))"

text \<open>The block that the object found at an anchor occupies, and whether it is whole.\<close>

definition block_at :: "game_map \<Rightarrow> coordinate \<Rightarrow> coordinate set" where
  "block_at m a =
     (case get m a of None \<Rightarrow> {} | Some obj \<Rightarrow> footprint_block a (object_size obj))"

definition whole_at :: "game_map \<Rightarrow> coordinate \<Rightarrow> bool" where
  "whole_at m a =
     (case get m a of
        None \<Rightarrow> False
      | Some obj \<Rightarrow>
          0 < object_size obj \<and> (\<forall>q \<in> footprint_block a (object_size obj). get m q = Some obj))"

definition anchors_ok :: "game_map \<Rightarrow> coordinate set \<Rightarrow> bool" where
  "anchors_ok m A =
     ((\<forall>a \<in> A. whole_at m a) \<and>
      (\<forall>a \<in> A. \<forall>b \<in> A. a \<noteq> b \<longrightarrow> block_at m a \<inter> block_at m b = {}) \<and>
      (\<forall>p. get m p \<noteq> None \<longrightarrow> (\<exists>a \<in> A. p \<in> block_at m a)))"

section \<open>Maps in a store\<close>

text \<open>
  \<^verbatim>\<open>capture\<close> is about two \<^verbatim>\<open>Map\<close> objects and their dictionaries, so here a map
  holds the address of its dictionary in a store of dictionaries, a list indexed
  by address. \<^verbatim>\<open>Map(size)\<close> allocates an empty dictionary; \<^verbatim>\<open>add\<close> and \<^verbatim>\<open>remove\<close>
  read and write the dictionary of \<^verbatim>\<open>self\<close> alone.
\<close>

type_synonym store = "cells list"

record map_object =
  size_field :: int
  matrix_field :: nat

definition Map_new :: "store \<Rightarrow> int \<Rightarrow> map_object \<times> store" where
  "Map_new s n = (\<lparr>size_field = n, matrix_field = length s\<rparr>, s @ [\<lambda>_. None])"

definition view :: "store \<Rightarrow> map_object \<Rightarrow> game_map" where
  "view s self = \<lparr>map_size = size_field self, matrix = s ! matrix_field self\<rparr>"

definition get_in :: "store \<Rightarrow> map_object \<Rightarrow> coordinate \<Rightarrow> game_object option" where
  "get_in s self c = get (view s self) c"

definition add_in ::
  "comparison \<Rightarrow> store \<Rightarrow> map_object \<Rightarrow> game_object \<Rightarrow> coordinate option \<Rightarrow> (error + unit) \<times> store" where
  "add_in le s self obj coordinate =
     (case add le (view s self) obj coordinate of
        (r, m) \<Rightarrow> (r, s[matrix_field self := matrix m]))"

definition remove_in ::
  "comparison \<Rightarrow> store \<Rightarrow> map_object \<Rightarrow> coordinate \<Rightarrow> (error + game_object) \<times> store" where
  "remove_in le s self coordinate =
     (case remove le (view s self) coordinate of
        (r, m) \<Rightarrow> (r, s[matrix_field self := matrix m]))"

text \<open>
  \<^verbatim>\<open>capture\<close>: \<^verbatim>\<open>Map(self.__size)\<close>, then \<^verbatim>\<open>self.__matrix.copy()\<close> allocates a
  dictionary with the entries of the original, and the new map's field is set to
  its address.
\<close>

definition capture :: "store \<Rightarrow> map_object \<Rightarrow> map_object \<times> store" where
  "capture s self =
     (case Map_new s (size_field self) of
        (new_map, s1) \<Rightarrow>
          (new_map\<lparr>matrix_field := length s1\<rparr>, s1 @ [s1 ! matrix_field self]))"

text \<open>
  A call of \<^verbatim>\<open>add\<close> or \<^verbatim>\<open>remove\<close> on a map, and the store after a sequence of such
  calls; a call that raises leaves the store as it is at that moment.
\<close>

datatype operation = Add game_object "coordinate option" | Remove coordinate

fun apply_operation :: "comparison \<Rightarrow> store \<Rightarrow> map_object \<Rightarrow> operation \<Rightarrow> store" where
  "apply_operation le s self (Add obj coordinate) = snd (add_in le s self obj coordinate)"
| "apply_operation le s self (Remove coordinate) = snd (remove_in le s self coordinate)"

fun apply_operations :: "comparison \<Rightarrow> store \<Rightarrow> map_object \<Rightarrow> operation list \<Rightarrow> store" where
  "apply_operations le s self [] = s"
| "apply_operations le s self (operation # rest) =
     apply_operations le (apply_operation le s self operation) self rest"

text \<open>
  The map object made by \<^verbatim>\<open>Map(5)\<close> in the empty store, and the store after
  \<^verbatim>\<open>add(U, Coordinate(2, 2))\<close> on it.
\<close>

definition unit_map :: map_object where
  "unit_map = fst (Map_new [] 5)"

definition unit_store :: store where
  "unit_store =
     snd (add_in coordinate_le (snd (Map_new [] 5)) unit_map unit_U (Some (Coordinate 2 2)))"

section \<open>Loops\<close>

lemma set_block_offsets:
  "set (block_offsets k) = {d. 0 \<le> fst d \<and> fst d < k \<and> 0 \<le> snd d \<and> snd d < k}"
  by (auto simp: block_offsets_def)

lemma cell_at_block: "cell_at c ` set (block_offsets k) = footprint_block c k"
proof
  show "cell_at c ` set (block_offsets k) \<subseteq> footprint_block c k"
    by (auto simp: set_block_offsets footprint_block_def cell_at_def)
next
  show "footprint_block c k \<subseteq> cell_at c ` set (block_offsets k)"
  proof
    fix p assume p: "p \<in> footprint_block c k"
    let ?d = "(get_x p - get_x c, get_y p - get_y c)"
    have "?d \<in> set (block_offsets k)"
      using p by (simp add: set_block_offsets footprint_block_def)
    moreover have "cell_at c ?d = p"
      by (cases p) (simp add: cell_at_def)
    ultimately show "p \<in> cell_at c ` set (block_offsets k)"
      by (metis imageI)
  qed
qed

lemma block_offsets_empty: "(block_offsets k = []) = (k \<le> 0)"
proof -
  have "(set (block_offsets k) = {}) = (k \<le> 0)"
  proof
    assume e: "set (block_offsets k) = {}"
    show "k \<le> 0"
    proof (rule ccontr)
      assume "\<not> k \<le> 0"
      then have "(0, 0) \<in> set (block_offsets k)" by (simp add: set_block_offsets)
      with e show False by simp
    qed
  next
    assume "k \<le> 0"
    then show "set (block_offsets k) = {}" by (auto simp: set_block_offsets)
  qed
  then show ?thesis by simp
qed

lemma check_placement_loop_Some:
  "check_placement_loop le m obj (Some c) ds =
     (ds = [] \<or>
      (le (Coordinate 0 0) c \<and>
       le (coordinate_sub (coordinate_add c (object_size obj)) 1)
          (Coordinate (get_size m - 1) (get_size m - 1)) \<and>
       (\<forall>d \<in> set ds. get m (cell_at c d) = None)))"
  by (induction ds) auto

lemma check_placement_loop_None:
  "check_placement_loop le m obj None ds = (ds = [])"
  by (cases ds) auto

lemma check_placement_Some:
  "check_placement le m obj (Some c) =
     (object_size obj \<le> 0 \<or>
      (le (Coordinate 0 0) c \<and>
       le (coordinate_sub (coordinate_add c (object_size obj)) 1)
          (Coordinate (get_size m - 1) (get_size m - 1)) \<and>
       (\<forall>p \<in> footprint_block c (object_size obj). get m p = None)))"
  unfolding check_placement_def check_placement_loop_Some block_offsets_empty
  by (simp add: cell_at_block [symmetric])

lemma check_placement_None:
  "check_placement le m obj None = (object_size obj \<le> 0)"
  by (simp add: check_placement_def check_placement_loop_None block_offsets_empty)

lemma block_in_bounds:
  assumes "0 < k"
  shows "(\<forall>p \<in> footprint_block c k. in_bounds m p) =
         (0 \<le> get_x c \<and> 0 \<le> get_y c \<and> get_x c + k - 1 \<le> get_size m - 1 \<and>
          get_y c + k - 1 \<le> get_size m - 1)"
proof
  assume a: "\<forall>p \<in> footprint_block c k. in_bounds m p"
  have "c \<in> footprint_block c k"
    using assms by (simp add: footprint_block_def)
  moreover have "Coordinate (get_x c + k - 1) (get_y c + k - 1) \<in> footprint_block c k"
    using assms by (simp add: footprint_block_def)
  ultimately have "in_bounds m c" "in_bounds m (Coordinate (get_x c + k - 1) (get_y c + k - 1))"
    using a by blast+
  then show "0 \<le> get_x c \<and> 0 \<le> get_y c \<and> get_x c + k - 1 \<le> get_size m - 1 \<and>
             get_y c + k - 1 \<le> get_size m - 1"
    by (simp add: in_bounds_def)
next
  assume "0 \<le> get_x c \<and> 0 \<le> get_y c \<and> get_x c + k - 1 \<le> get_size m - 1 \<and>
          get_y c + k - 1 \<le> get_size m - 1"
  then show "\<forall>p \<in> footprint_block c k. in_bounds m p"
    by (auto simp: footprint_block_def in_bounds_def)
qed

section \<open>Placement\<close>


text \<open>
  Under the componentwise comparison the two comparisons say that every cell of
  the block lies within \<open>[0, size - 1] \<times> [0, size - 1]\<close>.
\<close>

lemma check_placement_componentwise:
  assumes "0 < object_size obj"
  shows "check_placement coordinate_le m obj coordinate =
         (\<exists>c. coordinate = Some c \<and>
              (\<forall>p \<in> footprint_block c (object_size obj). in_bounds m p \<and> get m p = None))"
proof (cases coordinate)
  case None
  then show ?thesis using assms by (simp add: check_placement_None)
next
  case (Some c)
  have "(\<forall>p \<in> footprint_block c (object_size obj). in_bounds m p \<and> get m p = None) =
        ((\<forall>p \<in> footprint_block c (object_size obj). in_bounds m p) \<and>
         (\<forall>p \<in> footprint_block c (object_size obj). get m p = None))"
    by blast
  then show ?thesis
    using assms Some
    by (simp add: check_placement_Some block_in_bounds coordinate_le_def coordinate_add_def
        coordinate_sub_def)
qed

lemma add_loop_Some:
  "add_loop m obj (Some c) ds =
     (Inr (), m\<lparr>matrix := (\<lambda>p. if p \<in> cell_at c ` set ds then Some obj else matrix m p)\<rparr>)"
proof (induction ds arbitrary: m)
  case Nil
  then show ?case by simp
next
  case (Cons d ds)
  have "m\<lparr>matrix := (\<lambda>p. if p \<in> cell_at c ` set ds then Some obj
              else ((matrix m)(cell_at c d := Some obj)) p)\<rparr> =
        m\<lparr>matrix := (\<lambda>p. if p \<in> cell_at c ` set (d # ds) then Some obj else matrix m p)\<rparr>"
    by (rule arg_cong [where f = "\<lambda>f. m\<lparr>matrix := f\<rparr>"]) auto
  then show ?case by (simp add: Cons.IH cong: if_cong)
qed

lemma remove_loop_eq:
  "remove_loop m c ds =
     m\<lparr>matrix := (\<lambda>p. if p \<in> cell_at c ` set ds then None else matrix m p)\<rparr>"
proof (induction ds arbitrary: m)
  case Nil
  then show ?case by simp
next
  case (Cons d ds)
  have "m\<lparr>matrix := (\<lambda>p. if p \<in> cell_at c ` set ds then None
              else ((matrix m)(cell_at c d := None)) p)\<rparr> =
        m\<lparr>matrix := (\<lambda>p. if p \<in> cell_at c ` set (d # ds) then None else matrix m p)\<rparr>"
    by (rule arg_cong [where f = "\<lambda>f. m\<lparr>matrix := f\<rparr>"]) auto
  then show ?case by (simp add: Cons.IH cong: if_cong)
qed

lemma add_success:
  assumes "check_placement le m obj (Some c)"
  shows "add le m obj (Some c) =
     (Inr (), m\<lparr>matrix := (\<lambda>p. if p \<in> footprint_block c (object_size obj) then Some obj
                                 else matrix m p)\<rparr>)"
  using assms by (simp add: add_def add_loop_Some cell_at_block)

lemma add_None:
  assumes "check_placement le m obj None"
  shows "add le m obj None = (Inr (), m)"
proof -
  have "block_offsets (object_size obj) = []"
    using assms by (simp add: check_placement_None block_offsets_empty)
  then show ?thesis using assms by (simp add: add_def)
qed

lemma add_failure:
  assumes "\<not> check_placement le m obj coordinate"
  shows "add le m obj coordinate = (Inl PlacementError, m)"
  using assms by (simp add: add_def)

lemma remove_success:
  assumes "le (Coordinate 0 0) c" and "le c (Coordinate (get_size m) (get_size m))"
    and "matrix m c = Some obj"
  shows "remove le m c =
     (Inr obj, m\<lparr>matrix := (\<lambda>p. if p \<in> footprint_block c (object_size obj) then None
                                 else matrix m p)\<rparr>)"
  using assms by (simp add: remove_def remove_loop_eq cell_at_block)

text \<open>
  C2. \<open>add\<close> raises the placement error exactly when \<open>check_placement\<close> is false.
  When \<open>check_placement\<close> is true it returns normally, and afterwards the cells
  of the footprint block anchored at the coordinate hold the object and every
  other cell holds what it held before. (With no coordinate, \<open>check_placement\<close>
  is true only for an object without cells, and nothing is written.)
\<close>

theorem add_placement:
  "(fst (add le m obj coordinate) = Inl PlacementError) = (\<not> check_placement le m obj coordinate) \<and>
   (check_placement le m obj coordinate \<longrightarrow>
      fst (add le m obj coordinate) = Inr () \<and>
      get_size (snd (add le m obj coordinate)) = get_size m \<and>
      (\<forall>p. get (snd (add le m obj coordinate)) p =
         (case coordinate of
            None \<Rightarrow> get m p
          | Some c \<Rightarrow> if p \<in> footprint_block c (object_size obj) then Some obj else get m p)))"
proof (cases "check_placement le m obj coordinate")
  case False
  then show ?thesis by (simp add: add_failure)
next
  case True
  show ?thesis
  proof (cases coordinate)
    case None
    with True show ?thesis by (simp add: add_None)
  next
    case (Some c)
    with True show ?thesis by (simp add: add_success get_def get_size_def)
  qed
qed

lemma check_B: "check_placement coordinate_le (Map_init 4) building_B (Some (Coordinate 0 0))"
  by (simp add: check_placement_Some building_B_def Map_init_def get_def get_size_def
      coordinate_le_def coordinate_add_def coordinate_sub_def)

theorem add_placement_witness:
  "check_placement coordinate_le (Map_init 4) building_B (Some (Coordinate 0 0)) \<and>
   fst (add coordinate_le (Map_init 4) building_B (Some (Coordinate 0 0))) = Inr () \<and>
   get (snd (add coordinate_le (Map_init 4) building_B (Some (Coordinate 0 0)))) (Coordinate 1 1) =
     Some building_B \<and>
   get (snd (add coordinate_le (Map_init 4) building_B (Some (Coordinate 0 0)))) (Coordinate 2 2) =
     None"
  using add_placement [of coordinate_le "Map_init 4" building_B "Some (Coordinate 0 0)"] check_B
  by (simp add: footprint_block_def Map_init_def get_def building_B_def)

section \<open>Placing and removing again\<close>

text \<open>
  C3. When \<open>check_placement\<close> holds for an object of positive footprint at a
  coordinate, \<open>add\<close> there followed by \<open>remove\<close> at the same coordinate both
  return normally, \<open>remove\<close> returns the object, and the map answers \<open>get\<close> at
  every coordinate as it did before the two calls. The comparison of
  coordinates is taken to be the componentwise one.
\<close>

theorem add_remove_round_trip:
  assumes "0 < object_size obj" and "check_placement coordinate_le m obj (Some c)"
  shows "fst (add coordinate_le m obj (Some c)) = Inr () \<and>
         fst (remove coordinate_le (snd (add coordinate_le m obj (Some c))) c) = Inr obj \<and>
         get_size (snd (remove coordinate_le (snd (add coordinate_le m obj (Some c))) c)) =
           get_size m \<and>
         (\<forall>p. get (snd (remove coordinate_le (snd (add coordinate_le m obj (Some c))) c)) p =
              get m p)"
proof -
  let ?k = "object_size obj"
  let ?m1 = "m\<lparr>matrix := (\<lambda>p. if p \<in> footprint_block c ?k then Some obj else matrix m p)\<rparr>"
  have a: "add coordinate_le m obj (Some c) = (Inr (), ?m1)"
    using assms(2) by (rule add_success)
  have bounds: "coordinate_le (Coordinate 0 0) c"
       "coordinate_le (coordinate_sub (coordinate_add c ?k) 1)
          (Coordinate (get_size m - 1) (get_size m - 1))"
    and empty: "\<forall>p \<in> footprint_block c ?k. get m p = None"
    using assms by (simp_all add: check_placement_Some)
  have c_in: "c \<in> footprint_block c ?k"
    using assms(1) by (simp add: footprint_block_def)
  have le1: "coordinate_le (Coordinate 0 0) c" by (rule bounds(1))
  have le2: "coordinate_le c (Coordinate (get_size ?m1) (get_size ?m1))"
    using bounds(2) assms(1)
    by (simp add: coordinate_le_def coordinate_add_def coordinate_sub_def get_size_def)
  have at: "matrix ?m1 c = Some obj" using c_in by simp
  have r: "remove coordinate_le ?m1 c =
     (Inr obj, ?m1\<lparr>matrix := (\<lambda>p. if p \<in> footprint_block c ?k then None else matrix ?m1 p)\<rparr>)"
    using le1 le2 at by (rule remove_success)
  have "\<forall>p. get (snd (remove coordinate_le ?m1 c)) p = get m p"
    using empty by (simp add: r get_def)
  then show ?thesis by (simp add: a r get_size_def)
qed


theorem add_remove_round_trip_witness:
  "0 < object_size building_B \<and>
   check_placement coordinate_le (Map_init 4) building_B (Some (Coordinate 0 0)) \<and>
   fst (remove coordinate_le (snd (add coordinate_le (Map_init 4) building_B (Some (Coordinate 0 0))))
         (Coordinate 0 0)) = Inr building_B \<and>
   get (snd (remove coordinate_le (snd (add coordinate_le (Map_init 4) building_B (Some (Coordinate 0 0))))
         (Coordinate 0 0))) (Coordinate 1 1) = None"
  using add_remove_round_trip [of building_B "Map_init 4" "Coordinate 0 0"] check_B
  by (simp add: building_B_def Map_init_def get_def)

section \<open>Movement\<close>

lemma check_placement_cleared:
  assumes "check_placement le m obj coordinate"
  shows "check_placement le (m\<lparr>matrix := (\<lambda>p. if p \<in> S then None else matrix m p)\<rparr>) obj coordinate"
proof (cases coordinate)
  case None
  with assms show ?thesis by (simp add: check_placement_None)
next
  case (Some c)
  with assms show ?thesis by (auto simp: check_placement_Some get_def get_size_def)
qed

lemma remove_result:
  "remove le m c = (Inl OutOfBoundsError, m) \<or> remove le m c = (Inl EmptyCellError, m) \<or>
   (\<exists>obj. matrix m c = Some obj \<and>
      remove le m c = (Inr obj, m\<lparr>matrix := (\<lambda>p. if p \<in> footprint_block c (object_size obj) then None
                                 else matrix m p)\<rparr>))"
  by (auto simp: remove_def remove_loop_eq cell_at_block split: option.splits)

lemma move_cases:
  "move le m obj n = (Inl NotAdjacentError, m) \<and> \<not> is_adjacent (object_coordinate obj) n \<or>
   move le m obj n = (Inl PlacementError, m) \<and> is_adjacent (object_coordinate obj) n \<and>
     \<not> check_placement le m obj (Some n) \<or>
   is_adjacent (object_coordinate obj) n \<and> check_placement le m obj (Some n) \<and>
     (move le m obj n = (Inl OutOfBoundsError, m) \<or> move le m obj n = (Inl EmptyCellError, m)) \<or>
   is_adjacent (object_coordinate obj) n \<and> check_placement le m obj (Some n) \<and>
     (\<exists>removed m1. remove le m (object_coordinate obj) = (Inr removed, m1) \<and>
        add le m1 obj (Some n) = move le m obj n \<and> fst (move le m obj n) = Inr ())"
proof (cases "is_adjacent (object_coordinate obj) n \<and> check_placement le m obj (Some n)")
  case False
  then show ?thesis by (auto simp: move_def)
next
  case True
  let ?a = "object_coordinate obj"
  from remove_result [of le m ?a] show ?thesis
  proof (elim disjE exE conjE)
    assume "remove le m ?a = (Inl OutOfBoundsError, m)"
    with True show ?thesis by (simp add: move_def)
  next
    assume "remove le m ?a = (Inl EmptyCellError, m)"
    with True show ?thesis by (simp add: move_def)
  next
    fix removed :: game_object
    let ?m1 = "m\<lparr>matrix := (\<lambda>p. if p \<in> footprint_block ?a (object_size removed) then None
                                 else matrix m p)\<rparr>"
    assume r: "remove le m ?a = (Inr removed, ?m1)"
    have "check_placement le ?m1 obj (Some n)"
      using True by (simp add: check_placement_cleared)
    then have "fst (add le ?m1 obj (Some n)) = Inr ()"
      by (simp add: add_success)
    moreover have "move le m obj n = add le ?m1 obj (Some n)"
      using True r by (simp add: move_def)
    ultimately show ?thesis using True r by auto
  qed
qed

text \<open>
  C4. \<open>move\<close> returns normally only when the new coordinate is at Chebyshev
  distance 1 from the object's recorded coordinate and \<open>check_placement\<close> holds
  for the object there. A coordinate that is not adjacent raises the adjacency
  error, an adjacent one that fails \<open>check_placement\<close> raises the placement
  error, and whenever \<open>move\<close> raises, whatever the error, the map has its size
  and answers \<open>get\<close> at every coordinate as before the call.
\<close>

theorem move_guarded:
  "(fst (move le m obj n) = Inr () \<longrightarrow>
      chebyshev (object_coordinate obj) n = 1 \<and> check_placement le m obj (Some n)) \<and>
   (chebyshev (object_coordinate obj) n \<noteq> 1 \<longrightarrow> fst (move le m obj n) = Inl NotAdjacentError) \<and>
   (chebyshev (object_coordinate obj) n = 1 \<and> \<not> check_placement le m obj (Some n) \<longrightarrow>
      fst (move le m obj n) = Inl PlacementError) \<and>
   (\<forall>e. fst (move le m obj n) = Inl e \<longrightarrow>
      get_size (snd (move le m obj n)) = get_size m \<and>
      (\<forall>p. get (snd (move le m obj n)) p = get m p))"
  using move_cases [of le m obj n]
  by (elim disjE conjE exE) (auto simp: is_adjacent_def)

lemma footprints_overlap:
  assumes "2 \<le> k" and "chebyshev a n = 1"
  shows "\<exists>p. p \<in> footprint_block a k \<and> p \<in> footprint_block n k"
proof -
  let ?p = "Coordinate (max (get_x a) (get_x n)) (max (get_y a) (get_y n))"
  have "\<bar>get_x a - get_x n\<bar> \<le> 1" "\<bar>get_y a - get_y n\<bar> \<le> 1"
    using assms(2) by (simp_all add: chebyshev_def max_def split: if_splits)
  then have "?p \<in> footprint_block a k \<and> ?p \<in> footprint_block n k"
    using assms(1) by (auto simp: footprint_block_def)
  then show ?thesis by blast
qed

text \<open>
  C10. Let an object of footprint at least 2 occupy the block anchored at its
  recorded coordinate. Then \<open>move\<close> raises for every new coordinate: the
  adjacency error when the coordinate is not adjacent, and the placement error
  when it is, because the block at an adjacent coordinate shares a cell with the
  block the object still occupies when \<open>check_placement\<close> runs. The map is left
  as it was.
\<close>

theorem move_large_object_fails:
  assumes "2 \<le> object_size obj"
    and "\<forall>p \<in> footprint_block (object_coordinate obj) (object_size obj). get m p = Some obj"
  shows "fst (move le m obj n) =
           (if is_adjacent (object_coordinate obj) n then Inl PlacementError
            else Inl NotAdjacentError) \<and>
         snd (move le m obj n) = m"
proof (cases "is_adjacent (object_coordinate obj) n")
  case False
  then show ?thesis by (simp add: move_def)
next
  case True
  then obtain p where p: "p \<in> footprint_block (object_coordinate obj) (object_size obj)"
      "p \<in> footprint_block n (object_size obj)"
    using footprints_overlap [OF assms(1)] by (auto simp: is_adjacent_def)
  from p(1) assms(2) have "get m p \<noteq> None" by simp
  with p(2) assms(1) have "\<not> check_placement le m obj (Some n)"
    by (auto simp: check_placement_Some)
  with True show ?thesis by (simp add: move_def)
qed

theorem move_guarded_witness:
  "fst (move coordinate_le unit_grid unit_U (Coordinate 3 3)) = Inr () \<and>
   chebyshev (object_coordinate unit_U) (Coordinate 3 3) = 1 \<and>
   check_placement coordinate_le unit_grid unit_U (Some (Coordinate 3 3)) \<and>
   fst (move coordinate_le unit_grid unit_U (Coordinate 0 0)) = Inl NotAdjacentError \<and>
   get (snd (move coordinate_le unit_grid unit_U (Coordinate 0 0))) (Coordinate 2 2) = Some unit_U"
proof -
  have ok: "fst (move coordinate_le unit_grid unit_U (Coordinate 3 3)) = Inr ()"
    by code_simp
  have far: "fst (move coordinate_le unit_grid unit_U (Coordinate 0 0)) = Inl NotAdjacentError"
    by code_simp
  have here: "get unit_grid (Coordinate 2 2) = Some unit_U"
    by code_simp
  from move_guarded [of coordinate_le unit_grid unit_U "Coordinate 3 3"] ok
  have near: "chebyshev (object_coordinate unit_U) (Coordinate 3 3) = 1 \<and>
      check_placement coordinate_le unit_grid unit_U (Some (Coordinate 3 3))"
    by blast
  from move_guarded [of coordinate_le unit_grid unit_U "Coordinate 0 0"] far
  have "\<forall>p. get (snd (move coordinate_le unit_grid unit_U (Coordinate 0 0))) p = get unit_grid p"
    by blast
  with here have "get (snd (move coordinate_le unit_grid unit_U (Coordinate 0 0))) (Coordinate 2 2) =
      Some unit_U"
    by simp
  with ok far near show ?thesis by blast
qed

theorem move_large_object_fails_witness:
  "2 \<le> object_size building_B \<and>
   get building_grid (Coordinate 1 1) = Some building_B \<and>
   fst (move coordinate_le building_grid building_B (Coordinate 1 0)) = Inl PlacementError \<and>
   fst (move coordinate_le building_grid building_B (Coordinate 3 0)) = Inl NotAdjacentError"
proof -
  have size: "2 \<le> object_size building_B" by (simp add: building_B_def)
  have placed: "\<forall>p \<in> footprint_block (object_coordinate building_B) (object_size building_B).
      get building_grid p = Some building_B"
    using add_success [OF check_B] by (simp add: building_grid_def get_def building_B_def)
  have "Coordinate 1 1 \<in> footprint_block (object_coordinate building_B) (object_size building_B)"
    by (simp add: building_B_def footprint_block_def)
  with placed have at: "get building_grid (Coordinate 1 1) = Some building_B" by blast
  have near: "is_adjacent (object_coordinate building_B) (Coordinate 1 0)"
    by (simp add: is_adjacent_def chebyshev_def building_B_def)
  have far: "\<not> is_adjacent (object_coordinate building_B) (Coordinate 3 0)"
    by (simp add: is_adjacent_def chebyshev_def building_B_def)
  from move_large_object_fails [OF size placed, of coordinate_le "Coordinate 1 0"] near
  have a: "fst (move coordinate_le building_grid building_B (Coordinate 1 0)) = Inl PlacementError"
    by simp
  from move_large_object_fails [OF size placed, of coordinate_le "Coordinate 3 0"] far
  have b: "fst (move coordinate_le building_grid building_B (Coordinate 3 0)) = Inl NotAdjacentError"
    by simp
  from size at a b show ?thesis by blast
qed

section \<open>The bounds test of remove\<close>

text \<open>
  \<^verbatim>\<open>remove\<close> compares the coordinate with \<^verbatim>\<open>Coordinate(size, size)\<close>, where
  \<^verbatim>\<open>check_placement\<close> compares with \<^verbatim>\<open>Coordinate(size - 1, size - 1)\<close>. Under the
  componentwise comparison the bounds error is raised exactly outside
  \<open>[0, size] \<times> [0, size]\<close>, and a call that raises leaves the map as it was.
\<close>

lemma remove_errors:
  "(fst (remove coordinate_le m c) = Inl OutOfBoundsError) =
     (\<not> (0 \<le> get_x c \<and> get_x c \<le> get_size m \<and> 0 \<le> get_y c \<and> get_y c \<le> get_size m))"
  "fst (remove le m c) = Inl e \<Longrightarrow> snd (remove le m c) = m"
  by (auto simp: remove_def coordinate_le_def split: option.splits if_splits)

text \<open>
  C5. On the empty grid of size 5 the coordinate \<open>(5, 5)\<close> lies outside
  \<open>[0, 4] \<times> [0, 4]\<close>, and \<open>remove\<close> there raises the empty-cell error, not the
  bounds error.
\<close>

theorem remove_at_size_corner:
  "\<not> in_bounds (Map_init 5) (Coordinate 5 5) \<and>
   remove coordinate_le (Map_init 5) (Coordinate 5 5) = (Inl EmptyCellError, Map_init 5)"
  by (simp add: remove_def in_bounds_def Map_init_def get_size_def coordinate_le_def)

section \<open>Region extraction\<close>

lemma get_from_to_loop_size:
  "map_size (get_from_to_loop self f new_map ds) = map_size new_map"
  by (induction self f new_map ds rule: get_from_to_loop.induct)
    (auto simp: force_add_def split: option.splits)

lemma get_from_to_loop_matrix:
  "matrix (get_from_to_loop self f new_map ds) p =
     (if (get_x p + get_x f, get_y p + get_y f) \<in> set ds \<and>
         get self (Coordinate (get_x p + get_x f) (get_y p + get_y f)) \<noteq> None
      then get self (Coordinate (get_x p + get_x f) (get_y p + get_y f))
      else matrix new_map p)"
proof (induction self f new_map ds rule: get_from_to_loop.induct)
  case (1 self from_coord new_map)
  then show ?case by simp
next
  case (2 self from_coord new_map x y rest)
  show ?case
  proof (cases "get self (Coordinate x y)")
    case None
    with 2 show ?thesis by auto
  next
    case (Some obj)
    have "p = Coordinate (x - get_x from_coord) (y - get_y from_coord) \<longleftrightarrow>
          (get_x p + get_x from_coord = x \<and> get_y p + get_y from_coord = y)"
      by (cases p) auto
    with 2(2) [OF Some] Some show ?thesis
      by (auto simp: force_add_def)
  qed
qed

text \<open>
  C7. \<open>get_from_to\<close> returns a map whose size is the larger of the two
  differences \<open>to.x - from.x\<close> and \<open>to.y - from.y\<close>. Every cell \<open>(x, y)\<close> of the
  rectangle from \<open>from\<close> to \<open>to\<close>, both included, is found in the new map at
  \<open>(x - from.x, y - from.y)\<close> with what it holds in the original, so \<open>from\<close>
  is found at \<open>(0, 0)\<close>; and the new map holds nothing at any other coordinate.
\<close>

theorem get_from_to_translates:
  "get_size (get_from_to m f t) = max (get_x t - get_x f) (get_y t - get_y f) \<and>
   (\<forall>x y. get_x f \<le> x \<and> x \<le> get_x t \<and> get_y f \<le> y \<and> y \<le> get_y t \<longrightarrow>
      get (get_from_to m f t) (Coordinate (x - get_x f) (y - get_y f)) = get m (Coordinate x y)) \<and>
   (\<forall>p. get (get_from_to m f t) p \<noteq> None \<longrightarrow>
      0 \<le> get_x p \<and> get_x p \<le> get_x t - get_x f \<and> 0 \<le> get_y p \<and> get_y p \<le> get_y t - get_y f)"
  by (auto simp: get_from_to_def Let_def get_size_def get_def get_from_to_loop_size
      get_from_to_loop_matrix Map_init_def)

section \<open>Path finding\<close>

text \<open>
  C9. On the empty grid of size 3, \<open>path_finding\<close> from \<open>(0, 0)\<close> to \<open>(2, 2)\<close>
  returns \<^verbatim>\<open>None\<close>, not a list of three coordinates.
\<close>

theorem path_finding_returns_nothing:
  "path_finding (Map_init 3) (Coordinate 0 0) (Coordinate 2 2) = None"
  by (simp add: path_finding_def)

theorem get_from_to_translates_witness:
  "get building_grid (Coordinate 1 1) = Some building_B \<and>
   get_size (get_from_to building_grid (Coordinate 1 1) (Coordinate 3 3)) = 2 \<and>
   get (get_from_to building_grid (Coordinate 1 1) (Coordinate 3 3)) (Coordinate 0 0) =
     Some building_B"
proof -
  have at: "get building_grid (Coordinate 1 1) = Some building_B"
    by code_simp
  from get_from_to_translates [of building_grid "Coordinate 1 1" "Coordinate 3 3"]
  have size: "get_size (get_from_to building_grid (Coordinate 1 1) (Coordinate 3 3)) = 2"
    and cells: "\<forall>x y. 1 \<le> x \<and> x \<le> 3 \<and> 1 \<le> y \<and> y \<le> 3 \<longrightarrow>
      get (get_from_to building_grid (Coordinate 1 1) (Coordinate 3 3))
        (Coordinate (x - 1) (y - 1)) = get building_grid (Coordinate x y)"
    by simp_all
  from cells [rule_format, of 1 1] at size show ?thesis by simp
qed

section \<open>Captured maps\<close>

lemma apply_operation_frame:
  "length (apply_operation le s self operation) = length s \<and>
   (\<forall>i. i \<noteq> matrix_field self \<longrightarrow> apply_operation le s self operation ! i = s ! i)"
  by (cases operation) (auto simp: add_in_def remove_in_def split: prod.splits)

lemma apply_operations_frame:
  "length (apply_operations le s self ops) = length s \<and>
   (\<forall>i. i \<noteq> matrix_field self \<longrightarrow> apply_operations le s self ops ! i = s ! i)"
proof (induction ops arbitrary: s)
  case Nil
  then show ?case by simp
next
  case (Cons operation ops)
  then show ?case using apply_operation_frame [of le s self operation] by simp
qed

text \<open>
  C8. For a map whose dictionary is in the store, \<open>capture\<close> returns a map of
  the same size that answers \<open>get\<close> at every coordinate as the original does,
  and the original's answers are unchanged by \<open>capture\<close>. After any sequence of
  \<open>add\<close> and \<open>remove\<close> calls on the copy, raising or not, the original still
  answers \<open>get\<close> at every coordinate as before; and after any such sequence on
  the original, the copy still answers as the original did when it was captured.
\<close>

theorem capture_independent:
  assumes "matrix_field self < length s"
  shows "size_field (fst (capture s self)) = size_field self \<and>
         (\<forall>c. get_in (snd (capture s self)) (fst (capture s self)) c = get_in s self c) \<and>
         (\<forall>c. get_in (snd (capture s self)) self c = get_in s self c) \<and>
         (\<forall>c. get_in (apply_operations le (snd (capture s self)) (fst (capture s self)) ops) self c =
              get_in s self c) \<and>
         (\<forall>c. get_in (apply_operations le (snd (capture s self)) self ops) (fst (capture s self)) c =
              get_in s self c)"
proof -
  let ?copy = "fst (capture s self)" and ?s = "snd (capture s self)"
  have copy: "?copy = \<lparr>size_field = size_field self, matrix_field = Suc (length s)\<rparr>"
    by (simp add: capture_def Map_new_def)
  have s: "?s = s @ [\<lambda>_. None, s ! matrix_field self]"
    using assms by (simp add: capture_def Map_new_def nth_append)
  have ne: "matrix_field self \<noteq> matrix_field ?copy"
    using assms by (simp add: copy)
  have orig: "?s ! matrix_field self = s ! matrix_field self"
    using assms by (simp add: s nth_append)
  have new: "?s ! matrix_field ?copy = s ! matrix_field self"
    by (simp add: s copy nth_append)
  have "apply_operations le ?s ?copy ops ! matrix_field self = ?s ! matrix_field self"
    using apply_operations_frame [of le ?s ?copy ops] ne by blast
  moreover have "apply_operations le ?s self ops ! matrix_field ?copy = ?s ! matrix_field ?copy"
    using apply_operations_frame [of le ?s self ops] ne by metis
  ultimately show ?thesis
    using orig new by (simp add: get_in_def view_def get_def copy)
qed

theorem capture_independent_witness:
  "matrix_field unit_map < length unit_store \<and>
   get_in unit_store unit_map (Coordinate 2 2) = Some unit_U \<and>
   get_in (apply_operations coordinate_le (snd (capture unit_store unit_map))
       (fst (capture unit_store unit_map)) [Remove (Coordinate 2 2)])
     (fst (capture unit_store unit_map)) (Coordinate 2 2) = None \<and>
   get_in (apply_operations coordinate_le (snd (capture unit_store unit_map))
       (fst (capture unit_store unit_map)) [Remove (Coordinate 2 2)])
     unit_map (Coordinate 2 2) = Some unit_U"
proof -
  have valid: "matrix_field unit_map < length unit_store"
    by code_simp
  have here: "get_in unit_store unit_map (Coordinate 2 2) = Some unit_U"
    by code_simp
  have gone: "get_in (apply_operations coordinate_le (snd (capture unit_store unit_map))
       (fst (capture unit_store unit_map)) [Remove (Coordinate 2 2)])
     (fst (capture unit_store unit_map)) (Coordinate 2 2) = None"
    by code_simp
  from capture_independent [OF valid, of coordinate_le "[Remove (Coordinate 2 2)]"]
  have "\<forall>c. get_in (apply_operations coordinate_le (snd (capture unit_store unit_map))
       (fst (capture unit_store unit_map)) [Remove (Coordinate 2 2)]) unit_map c =
     get_in unit_store unit_map c"
    by blast
  with valid here gone show ?thesis by simp
qed

section \<open>Whole footprints\<close>

lemma whole_atD:
  assumes "whole_at m a"
  obtains obj where "get m a = Some obj" "0 < object_size obj"
    "block_at m a = footprint_block a (object_size obj)"
    "\<forall>q \<in> block_at m a. get m q = Some obj" "a \<in> block_at m a"
proof -
  from assms obtain obj where o: "get m a = Some obj" "0 < object_size obj"
      "\<forall>q \<in> footprint_block a (object_size obj). get m q = Some obj"
    by (auto simp: whole_at_def split: option.splits)
  have b: "block_at m a = footprint_block a (object_size obj)"
    using o(1) by (simp add: block_at_def)
  have "a \<in> footprint_block a (object_size obj)"
    using o(2) by (simp add: footprint_block_def)
  with o b that show thesis by simp
qed

lemma whole_at_kept:
  assumes "whole_at m a" and "\<forall>q \<in> block_at m a. get m' q = get m q"
  shows "whole_at m' a \<and> block_at m' a = block_at m a"
proof -
  from assms(1) obtain obj where o: "get m a = Some obj" "0 < object_size obj"
      "block_at m a = footprint_block a (object_size obj)"
      "\<forall>q \<in> block_at m a. get m q = Some obj" "a \<in> block_at m a"
    by (rule whole_atD)
  from o(5) assms(2) o(1) have a: "get m' a = Some obj" by simp
  have b: "block_at m' a = block_at m a" using a o(1) by (simp add: block_at_def)
  have "\<forall>q \<in> footprint_block a (object_size obj). get m' q = Some obj"
    using assms(2) o(3,4) by simp
  with a o(2) b show ?thesis by (simp add: whole_at_def)
qed

lemma anchors_ok_init: "anchors_ok (Map_init n) {}"
  by (simp add: anchors_ok_def Map_init_def get_def)

lemma anchors_ok_same:
  assumes "anchors_ok m A" and "\<forall>p. get m' p = get m p"
  shows "anchors_ok m' A"
proof -
  have g: "get m' p = get m p" for p using assms(2) by simp
  have "block_at m' = block_at m" "whole_at m' = whole_at m"
    by (auto simp: block_at_def whole_at_def fun_eq_iff g split: option.splits)
  with assms show ?thesis by (simp add: anchors_ok_def)
qed

lemma anchors_ok_place:
  assumes ok: "anchors_ok m A" and k: "0 < object_size obj"
    and empty: "\<forall>p \<in> footprint_block c (object_size obj). get m p = None"
    and m': "\<forall>p. get m' p = (if p \<in> footprint_block c (object_size obj) then Some obj else get m p)"
  shows "anchors_ok m' (insert c A)"
proof -
  let ?B = "footprint_block c (object_size obj)"
  have cB: "c \<in> ?B" using k by (simp add: footprint_block_def)
  have new: "whole_at m' c" "block_at m' c = ?B"
    using m' cB k by (simp_all add: whole_at_def block_at_def)
  have old: "whole_at m' a \<and> block_at m' a = block_at m a \<and> block_at m a \<inter> ?B = {}"
    if a: "a \<in> A" for a
  proof -
    from ok a have w: "whole_at m a" by (simp add: anchors_ok_def)
    then obtain oa where oa: "\<forall>q \<in> block_at m a. get m q = Some oa" by (rule whole_atD)
    have disj: "block_at m a \<inter> ?B = {}"
    proof (rule ccontr)
      assume "block_at m a \<inter> ?B \<noteq> {}"
      then obtain q where "q \<in> block_at m a" "q \<in> ?B" by blast
      with oa empty show False by auto
    qed
    then have "\<forall>q \<in> block_at m a. get m' q = get m q" using m' by auto
    with w disj show ?thesis using whole_at_kept by blast
  qed
  have notin: "c \<notin> A"
  proof
    assume "c \<in> A"
    with ok have "whole_at m c" by (simp add: anchors_ok_def)
    then obtain oc where "get m c = Some oc" by (rule whole_atD)
    with empty cB show False by auto
  qed
  have 1: "\<forall>a \<in> insert c A. whole_at m' a" using new old by auto
  have 2: "\<forall>a \<in> insert c A. \<forall>b \<in> insert c A. a \<noteq> b \<longrightarrow> block_at m' a \<inter> block_at m' b = {}"
  proof (intro ballI impI)
    fix a b assume ab: "a \<in> insert c A" "b \<in> insert c A" "a \<noteq> b"
    show "block_at m' a \<inter> block_at m' b = {}"
    proof (cases "a = c")
      case True
      with ab have "b \<in> A" by auto
      with old [of b] new True show ?thesis by auto
    next
      case False
      with ab have a: "a \<in> A" by auto
      show ?thesis
      proof (cases "b = c")
        case True
        with old [OF a] new show ?thesis by auto
      next
        case False
        with ab have b: "b \<in> A" by auto
        from ok a b ab(3) have "block_at m a \<inter> block_at m b = {}"
          by (simp add: anchors_ok_def)
        with old [OF a] old [OF b] show ?thesis by simp
      qed
    qed
  qed
  have 3: "\<forall>p. get m' p \<noteq> None \<longrightarrow> (\<exists>a \<in> insert c A. p \<in> block_at m' a)"
  proof (intro allI impI)
    fix p assume p: "get m' p \<noteq> None"
    show "\<exists>a \<in> insert c A. p \<in> block_at m' a"
    proof (cases "p \<in> ?B")
      case True
      with new show ?thesis by auto
    next
      case False
      with p m' have "get m p \<noteq> None" by simp
      with ok obtain a where "a \<in> A" "p \<in> block_at m a" by (auto simp: anchors_ok_def)
      with old [of a] show ?thesis by auto
    qed
  qed
  from 1 2 3 show ?thesis by (simp add: anchors_ok_def)
qed

lemma anchors_ok_clear:
  assumes ok: "anchors_ok m A" and c: "c \<in> A"
    and m': "\<forall>p. get m' p = (if p \<in> block_at m c then None else get m p)"
  shows "anchors_ok m' (A - {c})"
proof -
  have old: "whole_at m' a \<and> block_at m' a = block_at m a \<and> block_at m a \<inter> block_at m c = {}"
    if a: "a \<in> A - {c}" for a
  proof -
    from ok a have w: "whole_at m a" by (simp add: anchors_ok_def)
    from ok a c have disj: "block_at m a \<inter> block_at m c = {}" by (simp add: anchors_ok_def)
    then have "\<forall>q \<in> block_at m a. get m' q = get m q" using m' by auto
    with w disj show ?thesis using whole_at_kept by blast
  qed
  have 1: "\<forall>a \<in> A - {c}. whole_at m' a" using old by blast
  have 2: "\<forall>a \<in> A - {c}. \<forall>b \<in> A - {c}. a \<noteq> b \<longrightarrow> block_at m' a \<inter> block_at m' b = {}"
  proof (intro ballI impI)
    fix a b assume ab: "a \<in> A - {c}" "b \<in> A - {c}" "a \<noteq> b"
    with ok have "block_at m a \<inter> block_at m b = {}" by (simp add: anchors_ok_def)
    with old [OF ab(1)] old [OF ab(2)] show "block_at m' a \<inter> block_at m' b = {}" by simp
  qed
  have 3: "\<forall>p. get m' p \<noteq> None \<longrightarrow> (\<exists>a \<in> A - {c}. p \<in> block_at m' a)"
  proof (intro allI impI)
    fix p assume p: "get m' p \<noteq> None"
    with m' have pc: "p \<notin> block_at m c" and "get m p \<noteq> None"
      by (auto split: if_splits)
    with ok obtain a where a: "a \<in> A" "p \<in> block_at m a" by (auto simp: anchors_ok_def)
    with pc have "a \<in> A - {c}" by auto
    with old [of a] a(2) show "\<exists>a \<in> A - {c}. p \<in> block_at m' a" by auto
  qed
  from 1 2 3 show ?thesis by (simp add: anchors_ok_def)
qed

lemma anchors_ok_add:
  assumes ok: "anchors_ok m A" and a: "add le m obj coordinate = (Inr (), m')"
  shows "anchors_ok m' (anchors_after_add obj coordinate A)"
proof -
  have chk: "check_placement le m obj coordinate"
    using a add_failure [of le m obj coordinate] by auto
  show ?thesis
  proof (cases coordinate)
    case None
    with chk a have "m' = m" by (simp add: add_None)
    with ok None show ?thesis by (simp add: anchors_after_add_def)
  next
    case (Some c)
    let ?B = "footprint_block c (object_size obj)"
    from chk Some a have m': "\<forall>p. get m' p = (if p \<in> ?B then Some obj else get m p)"
      by (auto simp: add_success get_def)
    show ?thesis
    proof (cases "0 < object_size obj")
      case True
      with chk Some have empty: "\<forall>p \<in> ?B. get m p = None"
        by (simp add: check_placement_Some)
      from ok True empty m' have "anchors_ok m' (insert c A)" by (rule anchors_ok_place)
      with True Some show ?thesis by (simp add: anchors_after_add_def)
    next
      case False
      then have "?B = {}" by (auto simp: footprint_block_def)
      with m' have "\<forall>p. get m' p = get m p" by simp
      with ok have "anchors_ok m' A" by (rule anchors_ok_same)
      with False Some show ?thesis by (simp add: anchors_after_add_def)
    qed
  qed
qed

lemma anchors_ok_remove:
  assumes ok: "anchors_ok m A" and c: "c \<in> A" and r: "remove le m c = (Inr obj, m')"
  shows "anchors_ok m' (A - {c})"
proof -
  from remove_result [of le m c] r
  have g: "matrix m c = Some obj"
    and m': "m' = m\<lparr>matrix := (\<lambda>p. if p \<in> footprint_block c (object_size obj) then None
                                 else matrix m p)\<rparr>"
    by auto
  from g have "block_at m c = footprint_block c (object_size obj)"
    by (simp add: block_at_def get_def)
  with m' have "\<forall>p. get m' p = (if p \<in> block_at m c then None else get m p)"
    by (simp add: get_def)
  with ok c show ?thesis by (rule anchors_ok_clear)
qed

lemma anchors_ok_move:
  assumes ok: "anchors_ok m A" and c: "object_coordinate obj \<in> A"
    and mv: "move le m obj n = (Inr (), m')"
  shows "anchors_ok m' (anchors_after_add obj (Some n) (A - {object_coordinate obj}))"
proof -
  from move_cases [of le m obj n] mv
  obtain removed m1 where r: "remove le m (object_coordinate obj) = (Inr removed, m1)"
    and a: "add le m1 obj (Some n) = (Inr (), m')"
    by auto
  from ok c r have "anchors_ok m1 (A - {object_coordinate obj})" by (rule anchors_ok_remove)
  then show ?thesis using a by (rule anchors_ok_add)
qed

lemma anchors_ok_whole:
  assumes "anchors_ok m A"
  shows "whole_footprints m"
  unfolding whole_footprints_def
proof (intro allI impI)
  fix p obj assume p: "get m p = Some obj"
  with assms obtain a where a: "a \<in> A" "p \<in> block_at m a" by (auto simp: anchors_ok_def)
  with assms have "whole_at m a" by (simp add: anchors_ok_def)
  then obtain oa where oa: "block_at m a = footprint_block a (object_size oa)"
      "\<forall>q \<in> block_at m a. get m q = Some oa"
    by (rule whole_atD)
  with a(2) p have "oa = obj" by auto
  with oa a(2) show "\<exists>a. p \<in> footprint_block a (object_size obj) \<and>
      (\<forall>q \<in> footprint_block a (object_size obj). get m q = Some obj)"
    by auto
qed

text \<open>
  C6, as amended. In every grid produced from the empty grid by calls of \<open>add\<close>,
  \<open>remove\<close> and \<open>move\<close> that return normally, where every \<open>remove\<close>, also the
  one \<open>move\<close> makes at the object's recorded coordinate, is called at the
  anchor of a block that was placed and not removed since, there is no partial
  footprint: every cell that holds an object lies in a block of the object's
  footprint all of whose cells hold that object.
\<close>

theorem anchored_whole_footprints:
  assumes "anchored le n m A"
  shows "whole_footprints m"
proof -
  from assms have "anchors_ok m A"
  proof (induction rule: anchored.induct)
    case anchored_init
    show ?case by (rule anchors_ok_init)
  next
    case (anchored_add m A obj coordinate m')
    then show ?case by (simp add: anchors_ok_add)
  next
    case (anchored_remove m A c obj m')
    then show ?case by (simp add: anchors_ok_remove)
  next
    case (anchored_move m A obj c m')
    then show ?case by (simp add: anchors_ok_move)
  qed
  then show ?thesis by (rule anchors_ok_whole)
qed

lemma building_grid_eq:
  "add coordinate_le (Map_init 4) building_B (Some (Coordinate 0 0)) = (Inr (), building_grid)"
  using add_success [OF check_B] by (simp add: building_grid_def)

lemma building_grid_get:
  "get building_grid p = (if p \<in> footprint_block (Coordinate 0 0) 2 then Some building_B else None)"
  using add_success [OF check_B]
  by (simp add: building_grid_def get_def Map_init_def building_B_def)

lemma partial_grid_remove:
  "remove coordinate_le building_grid (Coordinate 1 1) = (Inr building_B, partial_grid)"
proof -
  have "coordinate_le (Coordinate 0 0) (Coordinate 1 1)"
    "coordinate_le (Coordinate 1 1) (Coordinate (get_size building_grid) (get_size building_grid))"
    using add_success [OF check_B]
    by (simp_all add: coordinate_le_def building_grid_def get_size_def Map_init_def)
  moreover have "matrix building_grid (Coordinate 1 1) = Some building_B"
    using building_grid_get [of "Coordinate 1 1"] by (simp add: get_def footprint_block_def)
  ultimately have "fst (remove coordinate_le building_grid (Coordinate 1 1)) = Inr building_B"
    by (simp add: remove_success)
  then show ?thesis by (simp add: partial_grid_def prod_eq_iff)
qed

lemma partial_grid_get:
  "get partial_grid p =
     (if p \<in> footprint_block (Coordinate 1 1) 2 then None else get building_grid p)"
proof -
  have "coordinate_le (Coordinate 0 0) (Coordinate 1 1)"
    "coordinate_le (Coordinate 1 1) (Coordinate (get_size building_grid) (get_size building_grid))"
    using add_success [OF check_B]
    by (simp_all add: coordinate_le_def building_grid_def get_size_def Map_init_def)
  moreover have "matrix building_grid (Coordinate 1 1) = Some building_B"
    using building_grid_get [of "Coordinate 1 1"] by (simp add: get_def footprint_block_def)
  ultimately show ?thesis
    by (simp add: partial_grid_def remove_success get_def building_B_def)
qed

text \<open>
  C6, as stated, fails: on the grid of size 4, \<^verbatim>\<open>add(B, Coordinate(0, 0))\<close> for
  the building of footprint 2 and then \<^verbatim>\<open>remove(Coordinate(1, 1))\<close> both return
  normally, and the cells \<open>(0, 0)\<close>, \<open>(0, 1)\<close> and \<open>(1, 0)\<close> still hold the
  building while \<open>(1, 1)\<close> is empty.
\<close>

theorem partial_footprint_reachable:
  "reachable coordinate_le 4 partial_grid \<and> \<not> whole_footprints partial_grid"
proof
  have "reachable coordinate_le 4 building_grid"
    using reachable_init building_grid_eq by (rule reachable_add)
  then show "reachable coordinate_le 4 partial_grid"
    using partial_grid_remove by (rule reachable_remove)
next
  show "\<not> whole_footprints partial_grid"
  proof
    assume "whole_footprints partial_grid"
    moreover have "get partial_grid (Coordinate 0 0) = Some building_B"
      by (simp add: partial_grid_get building_grid_get footprint_block_def)
    ultimately obtain a where a: "Coordinate 0 0 \<in> footprint_block a (object_size building_B)"
        "\<forall>q \<in> footprint_block a (object_size building_B). get partial_grid q = Some building_B"
      unfolding whole_footprints_def by blast
    let ?q = "if a = Coordinate 0 0 then Coordinate 1 1 else a"
    have q: "?q \<in> footprint_block a (object_size building_B)"
      by (simp add: footprint_block_def building_B_def)
    have "get partial_grid ?q = None"
      using a(1)
      by (auto simp: partial_grid_get building_grid_get footprint_block_def building_B_def
          coordinate.expand)
    with a(2) q show False by auto
  qed
qed

theorem anchored_whole_footprints_witness:
  "anchored coordinate_le 4 building_grid {Coordinate 0 0} \<and>
   whole_footprints building_grid \<and>
   anchored coordinate_le 5 (snd (move coordinate_le unit_grid unit_U (Coordinate 3 3)))
     {Coordinate 3 3} \<and>
   whole_footprints (snd (move coordinate_le unit_grid unit_U (Coordinate 3 3)))"
proof -
  have "anchored coordinate_le 4 building_grid
      (anchors_after_add building_B (Some (Coordinate 0 0)) {})"
    using anchored_init building_grid_eq by (rule anchored_add)
  then have b: "anchored coordinate_le 4 building_grid {Coordinate 0 0}"
    by (simp add: anchors_after_add_def building_B_def)
  have "add coordinate_le (Map_init 5) unit_U (Some (Coordinate 2 2)) = (Inr (), unit_grid)"
    by (simp add: unit_grid_def prod_eq_iff) code_simp
  with anchored_init have "anchored coordinate_le 5 unit_grid
      (anchors_after_add unit_U (Some (Coordinate 2 2)) {})"
    by (rule anchored_add)
  then have u: "anchored coordinate_le 5 unit_grid {Coordinate 2 2}"
    by (simp add: anchors_after_add_def unit_U_def)
  have at: "object_coordinate unit_U \<in> {Coordinate 2 2}"
    by (simp add: unit_U_def)
  have "fst (move coordinate_le unit_grid unit_U (Coordinate 3 3)) = Inr ()"
    by code_simp
  then have "move coordinate_le unit_grid unit_U (Coordinate 3 3) =
      (Inr (), snd (move coordinate_le unit_grid unit_U (Coordinate 3 3)))"
    by (simp add: prod_eq_iff)
  with u at have "anchored coordinate_le 5 (snd (move coordinate_le unit_grid unit_U (Coordinate 3 3)))
      (anchors_after_add unit_U (Some (Coordinate 3 3)) ({Coordinate 2 2} - {object_coordinate unit_U}))"
    by (rule anchored_move)
  then have v: "anchored coordinate_le 5 (snd (move coordinate_le unit_grid unit_U (Coordinate 3 3)))
      {Coordinate 3 3}"
    by (simp add: anchors_after_add_def unit_U_def)
  from b v anchored_whole_footprints [OF b] anchored_whole_footprints [OF v]
  show ?thesis by blast
qed

section \<open>The comparison of coordinates\<close>


text \<open>
  The statements above that name \<open>coordinate_le\<close> hold with \<open>coordinate_le_lex\<close>
  in its place: the round trip of \<open>add\<close> and \<open>remove\<close>, \<open>remove\<close> at the
  coordinate \<open>(size, size)\<close>, and the two calls that leave a partial footprint.
\<close>

lemma add_remove_round_trip_lex:
  assumes "0 < object_size obj" and "check_placement coordinate_le_lex m obj (Some c)"
  shows "fst (add coordinate_le_lex m obj (Some c)) = Inr () \<and>
         fst (remove coordinate_le_lex (snd (add coordinate_le_lex m obj (Some c))) c) = Inr obj \<and>
         get_size (snd (remove coordinate_le_lex (snd (add coordinate_le_lex m obj (Some c))) c)) =
           get_size m \<and>
         (\<forall>p. get (snd (remove coordinate_le_lex (snd (add coordinate_le_lex m obj (Some c))) c)) p =
              get m p)"
proof -
  let ?k = "object_size obj"
  let ?m1 = "m\<lparr>matrix := (\<lambda>p. if p \<in> footprint_block c ?k then Some obj else matrix m p)\<rparr>"
  have a: "add coordinate_le_lex m obj (Some c) = (Inr (), ?m1)"
    using assms(2) by (rule add_success)
  have bounds: "coordinate_le_lex (Coordinate 0 0) c"
       "coordinate_le_lex (coordinate_sub (coordinate_add c ?k) 1)
          (Coordinate (get_size m - 1) (get_size m - 1))"
    and empty: "\<forall>p \<in> footprint_block c ?k. get m p = None"
    using assms by (simp_all add: check_placement_Some)
  have c_in: "c \<in> footprint_block c ?k"
    using assms(1) by (simp add: footprint_block_def)
  have le2: "coordinate_le_lex c (Coordinate (get_size ?m1) (get_size ?m1))"
    using bounds(2) assms(1)
    by (auto simp: coordinate_le_lex_def coordinate_add_def coordinate_sub_def get_size_def)
  have at: "matrix ?m1 c = Some obj" using c_in by simp
  have r: "remove coordinate_le_lex ?m1 c =
     (Inr obj, ?m1\<lparr>matrix := (\<lambda>p. if p \<in> footprint_block c ?k then None else matrix ?m1 p)\<rparr>)"
    using bounds(1) le2 at by (rule remove_success)
  have "\<forall>p. get (snd (remove coordinate_le_lex ?m1 c)) p = get m p"
    using empty by (simp add: r get_def)
  then show ?thesis by (simp add: a r get_size_def)
qed

lemma remove_at_size_corner_lex:
  "remove coordinate_le_lex (Map_init 5) (Coordinate 5 5) = (Inl EmptyCellError, Map_init 5)"
  by (simp add: remove_def Map_init_def get_size_def coordinate_le_lex_def)

lemma partial_footprint_lex:
  "add coordinate_le_lex (Map_init 4) building_B (Some (Coordinate 0 0)) = (Inr (), building_grid) \<and>
   remove coordinate_le_lex building_grid (Coordinate 1 1) = (Inr building_B, partial_grid)"
proof -
  have chk: "check_placement coordinate_le_lex (Map_init 4) building_B (Some (Coordinate 0 0))"
    by (simp add: check_placement_Some building_B_def Map_init_def get_def get_size_def
        coordinate_le_lex_def coordinate_add_def coordinate_sub_def)
  have a: "add coordinate_le_lex (Map_init 4) building_B (Some (Coordinate 0 0)) =
      (Inr (), building_grid)"
    using add_success [OF chk] add_success [OF check_B] by (simp add: building_grid_def)
  have size: "get_size building_grid = 4"
    using add_success [OF check_B] by (simp add: building_grid_def get_size_def Map_init_def)
  have at: "matrix building_grid (Coordinate 1 1) = Some building_B"
    using building_grid_get [of "Coordinate 1 1"] by (simp add: get_def footprint_block_def)
  have "coordinate_le_lex (Coordinate 0 0) (Coordinate 1 1)"
    "coordinate_le_lex (Coordinate 1 1) (Coordinate (get_size building_grid) (get_size building_grid))"
    "coordinate_le (Coordinate 0 0) (Coordinate 1 1)"
    "coordinate_le (Coordinate 1 1) (Coordinate (get_size building_grid) (get_size building_grid))"
    by (simp_all add: size coordinate_le_lex_def coordinate_le_def)
  then have "remove coordinate_le_lex building_grid (Coordinate 1 1) =
      remove coordinate_le building_grid (Coordinate 1 1)"
    using at by (simp add: remove_success)
  with a partial_grid_remove show ?thesis by simp
qed

end
